theory Spec2Isabelle
  imports Main "HOL-Library.Sublist"
begin

section \<open>JavaScript values\<close>

text \<open>
  Strings. A JavaScript string is modelled by the bytes of its UTF-8 encoding
  (\<open>string\<close> is \<open>char list\<close>, a \<open>char\<close> is one byte). The patterns the
  program looks for (\<open>data: \<close>, the blank line) are ASCII, and an ASCII byte never
  occurs inside a multi-byte UTF-8 sequence, so splitting, prefix tests and replacement on the
  bytes agree with the same operations on UTF-16 code units. Strings holding lone surrogates
  have no UTF-8 encoding and are outside the model.
\<close>

definition NL :: char where
  "NL = CHR 0x0A"

text \<open>
  Values produced by \<open>JSON.parse\<close>, and the data of the objects that
  \<open>JSON.stringify\<close> serialises. A number is represented by the decimal text that
  JavaScript prints for it (\<open>0\<close> and \<open>-0\<close> both print as \<open>0\<close>); an object by
  its own properties, each name once, in the order in which JavaScript enumerates them.
  \<open>undefined\<close> is not a JSON value: a property read returns a \<open>json option\<close>, with
  \<open>None\<close> for \<open>undefined\<close>.
\<close>

datatype json =
    JNull
  | JBool bool
  | JNum string
  | JStr string
  | JArr "json list"
  | JObj "(string \<times> json) list"

text \<open>
  What a \<open>throw\<close> carries: the \<open>TypeError\<close> that the engine raises when a property
  of \<open>null\<close> or \<open>undefined\<close> is read, a value that is not iterable is iterated, or a
  value has no conversion to a string (an instance of \<open>Error\<close>; the wording of its message
  is the engine's), any other instance of \<open>Error\<close> with its message, or a value that is
  not an \<open>Error\<close>.
\<close>

datatype thrown = TypeError | Error string | NonError

text \<open>Truthiness (\<open>ToBoolean\<close>).\<close>

fun truthy :: "json option \<Rightarrow> bool" where
  "truthy None = False"
| "truthy (Some JNull) = False"
| "truthy (Some (JBool b)) = b"
| "truthy (Some (JNum n)) = (n \<noteq> ''0'')"
| "truthy (Some (JStr s)) = (s \<noteq> [])"
| "truthy (Some (JArr xs)) = True"
| "truthy (Some (JObj kvs)) = True"

text \<open>\<open>Array.prototype.join\<close> on strings already converted.\<close>

fun join :: "string \<Rightarrow> string list \<Rightarrow> string" where
  "join sep [] = []"
| "join sep [x] = x"
| "join sep (x # y # ys) = x @ sep @ join sep (y # ys)"

text \<open>The results of a list of conversions, or what the first failing one throws.\<close>

fun collect :: "(thrown + string) list \<Rightarrow> thrown + string list" where
  "collect [] = Inr []"
| "collect (Inl e # rs) = Inl e"
| "collect (Inr x # rs) = (case collect rs of Inl e \<Rightarrow> Inl e | Inr xs \<Rightarrow> Inr (x # xs))"

text \<open>
  The conversion to a string that concatenation with \<open>+\<close> and \<open>+=\<close> applies to a value
  (\<open>ToPrimitive\<close>, then \<open>ToString\<close>). An array joins its elements with commas, \<open>null\<close>
  elements printing as nothing. An object looks up \<open>toString\<close> and \<open>valueOf\<close>: without
  an own property \<open>toString\<close> it finds \<open>Object.prototype.toString\<close> and prints as
  \<open>[object Object]\<close>; an own property \<open>toString\<close> hides that method and is itself not
  callable (no value of parsed JSON is), \<open>valueOf\<close> gives no primitive either, and the
  conversion throws a \<open>TypeError\<close>. The same holds for an object inside an array.
\<close>

fun ToString :: "json \<Rightarrow> thrown + string" where
  "ToString JNull = Inr ''null''"
| "ToString (JBool b) = Inr (if b then ''true'' else ''false'')"
| "ToString (JNum n) = Inr n"
| "ToString (JStr s) = Inr s"
| "ToString (JArr xs) =
     (case collect (map (\<lambda>x. if x = JNull then Inr [] else ToString x) xs) of
        Inl e \<Rightarrow> Inl e
      | Inr strs \<Rightarrow> Inr (join '','' strs))"
| "ToString (JObj kvs) =
     (if map_of kvs ''toString'' = None then Inr ''[object Object]'' else Inl TypeError)"

text \<open>The same for the result of a property read: \<open>undefined\<close> prints as itself.\<close>

fun to_str :: "json option \<Rightarrow> thrown + string" where
  "to_str None = Inr ''undefined''"
| "to_str (Some v) = ToString v"

text \<open>
  Reading the property \<open>k\<close> of a value, for the names the program reads
  (\<open>candidates\<close>, \<open>content\<close>, \<open>parts\<close>, \<open>text\<close>, \<open>inlineData\<close>, \<open>data\<close>,
  \<open>message\<close>): none of them is a built-in property of a string, number, boolean or array,
  so only an object can have it. Reading a property of \<open>null\<close> or \<open>undefined\<close> throws.
\<close>

fun get_prop :: "json option \<Rightarrow> string \<Rightarrow> thrown + json option" where
  "get_prop None k = Inl TypeError"
| "get_prop (Some JNull) k = Inl TypeError"
| "get_prop (Some (JObj kvs)) k = Inr (map_of kvs k)"
| "get_prop (Some v) k = Inr None"

text \<open>Optional chaining \<open>v?.k\<close>: \<open>undefined\<close> when \<open>v\<close> is \<open>null\<close> or \<open>undefined\<close>.\<close>

fun opt_prop :: "json option \<Rightarrow> string \<Rightarrow> json option" where
  "opt_prop None k = None"
| "opt_prop (Some JNull) k = None"
| "opt_prop (Some (JObj kvs)) k = map_of kvs k"
| "opt_prop (Some v) k = None"

text \<open>Nullish coalescing \<open>v ?? d\<close>.\<close>

fun nullish :: "json option \<Rightarrow> json \<Rightarrow> json" where
  "nullish None d = d"
| "nullish (Some JNull) d = d"
| "nullish (Some v) d = v"

text \<open>
  The characters of a string, as \<open>for ... of\<close> visits them: one code point each, that is,
  a lead byte with the continuation bytes (\<open>0x80\<close> to \<open>0xBF\<close>) that follow it.
\<close>

definition continuation :: "char \<Rightarrow> bool" where
  "continuation c = (0x80 \<le> (of_char c :: nat) \<and> (of_char c :: nat) \<le> 0xBF)"

function code_points :: "string \<Rightarrow> string list" where
  "code_points [] = []"
| "code_points (c # cs) = (c # takeWhile continuation cs) # code_points (dropWhile continuation cs)"
  by pat_completeness auto
termination
  by (relation "measure length") (auto simp: le_imp_less_Suc length_dropWhile_le)

text \<open>
  The elements that \<open>for (const x of v)\<close> visits: those of an array, the characters of a
  string; every other value (\<open>undefined\<close> included) is not iterable and the loop throws.
\<close>

fun iterate :: "json option \<Rightarrow> thrown + json list" where
  "iterate (Some (JArr xs)) = Inr xs"
| "iterate (Some (JStr s)) = Inr (map JStr (code_points s))"
| "iterate v = Inl TypeError"

text \<open>\<open>s.startsWith(p)\<close>.\<close>

definition startsWith :: "string \<Rightarrow> string \<Rightarrow> bool" where
  "startsWith s p = (take (length p) s = p)"

text \<open>\<open>s.split(sep)\<close> for a separator that is not empty: the pieces between its
  occurrences, found from left to right without overlap. \<open>cur\<close> is the piece being read.\<close>

function split_from :: "string \<Rightarrow> string \<Rightarrow> string \<Rightarrow> string list" where
  "split_from sep cur [] = [cur]"
| "split_from sep cur (c # cs) =
     (if sep \<noteq> [] \<and> startsWith (c # cs) sep
      then cur # split_from sep [] (drop (length sep) (c # cs))
      else split_from sep (cur @ [c]) cs)"
  by pat_completeness auto
termination
  by (relation "measure (\<lambda>(sep, cur, s). length s)") auto

definition split :: "string \<Rightarrow> string \<Rightarrow> string list" where
  "split s sep = split_from sep [] s"

text \<open>\<open>s.replace(pat, rep)\<close> with a string pattern: the first occurrence only.\<close>

fun replace :: "string \<Rightarrow> string \<Rightarrow> string \<Rightarrow> string" where
  "replace [] pat rep = (if pat = [] then rep else [])"
| "replace (c # cs) pat rep =
     (if startsWith (c # cs) pat then rep @ drop (length pat) (c # cs)
      else c # replace cs pat rep)"

section \<open>Text encoding\<close>

text \<open>
  \<open>TextEncoder.encode\<close> gives the UTF-8 bytes of a string: the string's own representation.
\<close>

definition encode :: "string \<Rightarrow> string" where
  "encode s = s"

text \<open>\<open>U+FFFD\<close>, the replacement character, and \<open>U+FEFF\<close>, the byte order mark, in UTF-8.\<close>

definition replacement :: string where
  "replacement = [CHR 0xEF, CHR 0xBF, CHR 0xBD]"

definition BOM :: string where
  "BOM = [CHR 0xEF, CHR 0xBB, CHR 0xBF]"

text \<open>
  The UTF-8 decoder of the Encoding standard, which \<open>TextDecoder\<close> runs: \<open>seen\<close> holds
  the bytes of the sequence being read, \<open>needed\<close> counts the continuation bytes still to
  come, \<open>lo\<close> and \<open>hi\<close> bound the next one. A complete sequence is a code point, written
  here by the same bytes; a byte that cannot start or continue a sequence gives \<open>U+FFFD\<close>
  (and, inside a sequence, is read again as a first byte); so does a sequence cut short by
  the end of the input.
\<close>

function utf8_decoder :: "string \<Rightarrow> nat \<Rightarrow> nat \<Rightarrow> nat \<Rightarrow> string \<Rightarrow> string" where
  "utf8_decoder seen needed lo hi [] = (if needed \<noteq> 0 then replacement else [])"
| "utf8_decoder seen needed lo hi (c # cs) =
     (let b = (of_char c :: nat) in
      if needed = 0 then
        if b \<le> 0x7F then c # utf8_decoder [] 0 0x80 0xBF cs
        else if 0xC2 \<le> b \<and> b \<le> 0xDF then utf8_decoder [c] 1 0x80 0xBF cs
        else if 0xE0 \<le> b \<and> b \<le> 0xEF
          then utf8_decoder [c] 2 (if b = 0xE0 then 0xA0 else 0x80) (if b = 0xED then 0x9F else 0xBF) cs
        else if 0xF0 \<le> b \<and> b \<le> 0xF4
          then utf8_decoder [c] 3 (if b = 0xF0 then 0x90 else 0x80) (if b = 0xF4 then 0x8F else 0xBF) cs
        else replacement @ utf8_decoder [] 0 0x80 0xBF cs
      else if b < lo \<or> hi < b then replacement @ utf8_decoder [] 0 0x80 0xBF (c # cs)
      else if needed = 1 then seen @ [c] @ utf8_decoder [] 0 0x80 0xBF cs
      else utf8_decoder (seen @ [c]) (needed - 1) 0x80 0xBF cs)"
  by pat_completeness auto
termination
  by (relation "measures [\<lambda>(seen, needed, lo, hi, s). length s, \<lambda>(seen, needed, lo, hi, s). needed]") auto

text \<open>
  \<open>decoder.decode(value)\<close>, called without \<open>{stream: true}\<close>: every call decodes its bytes
  from a fresh decoder state, flushes at the end, and drops one leading byte order mark.
\<close>

definition decode :: "string \<Rightarrow> string" where
  "decode bytes =
     (let s = utf8_decoder [] 0 0x80 0xBF bytes in
      if startsWith s BOM then drop (length BOM) s else s)"

section \<open>The client: assembling slides from the event stream (index.tsx)\<close>

text \<open>
  An image element is modelled by what its \<open>src\<close> property reads: the empty string for the
  element that \<open>document.createElement('img')\<close> returns, then the string assigned to it. A
  slide is the element that \<open>addSlide\<close> builds: the image, then the caption; the caption
  is kept as the text handed to \<open>marked.parse\<close> (its rendering to HTML is the markdown
  library's, which is taken to return).
\<close>

datatype image = Img (src: string)

record slide =
  image :: image
  caption :: string

text \<open>
  The state of \<open>generate\<close> while it reads the stream: the local variables \<open>text\<close> and
  \<open>img\<close>, the children of the \<open>#slideshow\<close> element and its \<open>hidden\<close> attribute,
  and what \<open>console.error\<close> has been given.
\<close>

record gen =
  cur_text :: string
  cur_img :: "image option"
  slideshow :: "slide list"
  hidden :: bool
  console :: "thrown list"

text \<open>After \<open>clearUI\<close> and \<open>let text = ''; let img = null\<close>.\<close>

definition start :: gen where
  "start = \<lparr>cur_text = [], cur_img = None, slideshow = [], hidden = True, console = []\<rparr>"

definition addSlide :: "string \<Rightarrow> image \<Rightarrow> gen \<Rightarrow> gen" where
  "addSlide t i s = s\<lparr>slideshow := slideshow s @ [\<lparr>image = i, caption = t\<rparr>]\<rparr>"

text \<open>
  The body of the loop over the parts: lines 150 to 155, then lines 157 to 162. A throw
  leaves the loop with the state reached: \<open>Inl\<close> carries what was thrown and that state.
  Line 150 throws on a part that is \<open>null\<close>, and line 151 when \<open>part.text\<close> has no
  conversion to a string, both before anything is assigned. Line 153 assigns the new
  element to \<open>img\<close>; line 154 throws when the data has no conversion to a string, and
  \<open>img\<close> then keeps the element without a \<open>src\<close>.
\<close>

definition absorb :: "gen \<Rightarrow> json \<Rightarrow> (thrown \<times> gen) + gen" where
  "absorb s part =
     (case get_prop (Some part) ''text'' of
        Inl e \<Rightarrow> Inl (e, s)
      | Inr t \<Rightarrow>
          if truthy t then
            (case to_str t of
               Inl e \<Rightarrow> Inl (e, s)
             | Inr str \<Rightarrow> Inr (s\<lparr>cur_text := cur_text s @ str\<rparr>))
          else
            let d = opt_prop (opt_prop (Some part) ''inlineData'') ''data'' in
            if truthy d then
              (let s1 = s\<lparr>cur_img := Some (Img [])\<rparr> in
               case to_str d of
                 Inl e \<Rightarrow> Inl (e, s1)
               | Inr str \<Rightarrow> Inr (s1\<lparr>cur_img := Some (Img (''data:image/png;base64,'' @ str))\<rparr>))
            else Inr s)"

definition emit :: "gen \<Rightarrow> gen" where
  "emit s =
     (if cur_text s \<noteq> [] then
        (case cur_img s of
           Some i \<Rightarrow> (addSlide (cur_text s) i s)\<lparr>hidden := False, cur_text := [], cur_img := None\<rparr>
         | None \<Rightarrow> s)
      else s)"

definition process_part :: "gen \<Rightarrow> json \<Rightarrow> (thrown \<times> gen) + gen" where
  "process_part s part = (case absorb s part of Inl es \<Rightarrow> Inl es | Inr s' \<Rightarrow> Inr (emit s'))"

text \<open>
  The loops stop at the first throw; what was assigned and appended before it stays, so each
  returns the state it reached together with what was thrown, if anything.
\<close>

fun process_parts :: "gen \<Rightarrow> json list \<Rightarrow> thrown option \<times> gen" where
  "process_parts s [] = (None, s)"
| "process_parts s (part # parts) =
     (case process_part s part of
        Inl (e, s') \<Rightarrow> (Some e, s')
      | Inr s' \<Rightarrow> process_parts s' parts)"

text \<open>\<open>for (const part of candidate.content.parts ?? [])\<close>.\<close>

definition process_candidate :: "gen \<Rightarrow> json \<Rightarrow> thrown option \<times> gen" where
  "process_candidate s candidate =
     (case get_prop (Some candidate) ''content'' of
        Inl e \<Rightarrow> (Some e, s)
      | Inr content \<Rightarrow>
          (case get_prop content ''parts'' of
             Inl e \<Rightarrow> (Some e, s)
           | Inr parts \<Rightarrow>
               (case iterate (Some (nullish parts (JArr []))) of
                  Inl e \<Rightarrow> (Some e, s)
                | Inr ps \<Rightarrow> process_parts s ps)))"

fun process_candidates :: "gen \<Rightarrow> json list \<Rightarrow> thrown option \<times> gen" where
  "process_candidates s [] = (None, s)"
| "process_candidates s (candidate # candidates) =
     (case process_candidate s candidate of
        (Some e, s') \<Rightarrow> (Some e, s')
      | (None, s') \<Rightarrow> process_candidates s' candidates)"

text \<open>\<open>for (const candidate of chunk.candidates)\<close>.\<close>

definition process_chunk :: "gen \<Rightarrow> json \<Rightarrow> thrown option \<times> gen" where
  "process_chunk s chunk =
     (case get_prop (Some chunk) ''candidates'' of
        Inl e \<Rightarrow> (Some e, s)
      | Inr candidates \<Rightarrow>
          (case iterate candidates of
             Inl e \<Rightarrow> (Some e, s)
           | Inr cs \<Rightarrow> process_candidates s cs))"

text \<open>\<open>console.error("Error parsing stream chunk:", e)\<close>.\<close>

definition console_error :: "thrown \<Rightarrow> gen \<Rightarrow> gen" where
  "console_error e s = s\<lparr>console := console s @ [e]\<rparr>"

text \<open>
  The body of the loop over the lines of one read, lines 145 to 167. \<open>JSON.parse\<close> is the
  engine's: \<open>parse\<close> stands for it, giving the value or what it throws.
\<close>

definition process_line :: "(string \<Rightarrow> thrown + json) \<Rightarrow> gen \<Rightarrow> string \<Rightarrow> gen" where
  "process_line parse s line =
     (let jsonString = replace line ''data: '' [] in
      case parse jsonString of
        Inl e \<Rightarrow> console_error e s
      | Inr chunk \<Rightarrow>
          (case process_chunk s chunk of
             (Some e, s') \<Rightarrow> console_error e s'
           | (None, s') \<Rightarrow> s'))"

text \<open>The lines of one read that are handed on: line 142.\<close>

definition lines_of :: "string \<Rightarrow> string list" where
  "lines_of chunkString = filter (\<lambda>line. startsWith line ''data: '') (split chunkString [NL, NL])"

text \<open>One turn of the \<open>while\<close> loop, for a read that is not \<open>done\<close>: lines 141 to 168.\<close>

definition process_read :: "(string \<Rightarrow> thrown + json) \<Rightarrow> gen \<Rightarrow> string \<Rightarrow> gen" where
  "process_read parse s value = foldl (process_line parse) s (lines_of (decode value))"

text \<open>
  The \<open>while\<close> loop, lines 134 to 169: \<open>reads\<close> are the byte chunks that
  \<open>reader.read()\<close> delivers before it reports \<open>done\<close>.
\<close>

definition generate :: "(string \<Rightarrow> thrown + json) \<Rightarrow> gen \<Rightarrow> string list \<Rightarrow> gen" where
  "generate parse s reads = foldl (process_read parse) s reads"

text \<open>The strings that one read hands to \<open>JSON.parse\<close>: line 145 on each line of line 142.\<close>

definition payloads :: "string \<Rightarrow> string list" where
  "payloads value = map (\<lambda>line. replace line ''data: '' []) (lines_of (decode value))"

section \<open>The proxy: streaming the model's output as server-sent events (api/generate.ts)\<close>

text \<open>\<open>JSON.stringify\<close> without indentation: how a string is quoted, then every value.\<close>

definition hex_digit :: "nat \<Rightarrow> char" where
  "hex_digit n = ''0123456789abcdef'' ! (n mod 16)"

definition quote_char :: "char \<Rightarrow> string" where
  "quote_char c =
     (let n = (of_char c :: nat) in
      if n = 0x22 then [CHR 0x5C, CHR 0x22]
      else if n = 0x5C then [CHR 0x5C, CHR 0x5C]
      else if n = 0x08 then [CHR 0x5C, CHR ''b'']
      else if n = 0x09 then [CHR 0x5C, CHR ''t'']
      else if n = 0x0A then [CHR 0x5C, CHR ''n'']
      else if n = 0x0C then [CHR 0x5C, CHR ''f'']
      else if n = 0x0D then [CHR 0x5C, CHR ''r'']
      else if n < 0x20 then [CHR 0x5C] @ ''u00'' @ [hex_digit (n div 16), hex_digit n]
      else [c])"

definition quote :: "string \<Rightarrow> string" where
  "quote s = [CHR 0x22] @ concat (map quote_char s) @ [CHR 0x22]"

fun stringify :: "json \<Rightarrow> string" where
  "stringify JNull = ''null''"
| "stringify (JBool b) = (if b then ''true'' else ''false'')"
| "stringify (JNum n) = n"
| "stringify (JStr s) = quote s"
| "stringify (JArr xs) = ''['' @ join '','' (map stringify xs) @ '']''"
| "stringify (JObj kvs) = ''{'' @ join '','' (map (\<lambda>(k, v). quote k @ '':'' @ stringify v) kvs) @ ''}''"

text \<open>The request as the handler reads it: its method, and how \<open>await req.json()\<close> ends.\<close>

record request =
  req_method :: string
  req_json :: "thrown + json"

text \<open>The argument of \<open>ai.models.generateContentStream\<close>.\<close>

record api_call =
  model :: string
  contents :: string
  responseModalities :: "string list"

text \<open>
  What the handler runs on. The call of the model either rejects, or gives an asynchronous
  iterable: the chunks it yields (each by the data \<open>JSON.stringify\<close> sees), and what it
  throws after them, if it does not end normally. \<open>type_error_message\<close> is the message of
  the \<open>TypeError\<close> that the engine raises in this run, if it raises one (one run throws at
  most once): at line 30 for a body that is \<open>null\<close>, at line 38 for a message without a
  conversion to a string.
\<close>

record runtime =
  generateContentStream :: "api_call \<Rightarrow> thrown + (json list \<times> thrown option)"
  type_error_message :: string

text \<open>
  A response: its status, the headers the handler sets, and its body, either a text or the
  stream of the byte chunks enqueued, closed or errored at the end.
\<close>

datatype stream_end = Closed | Errored thrown

datatype body = Text string | Stream "string list" stream_end

record response =
  status :: nat
  headers :: "(string \<times> string) list"
  body :: body

text \<open>One run of the handler: the response, the calls of the model, and what was logged.\<close>

record handled =
  response :: response
  api_calls :: "api_call list"
  logged :: "thrown list"

definition additionalInstructions :: string where
  "additionalInstructions =
     [NL] @ ''Use a fun story about lots of tiny cats as a metaphor.'' @
     [NL] @ ''Keep sentences short but conversational, casual, and engaging.'' @
     [NL] @ ''Generate a cute, minimal illustration for each sentence with black ink on white background.'' @
     [NL] @ ''No commentary, just begin your explanation.'' @
     [NL] @ ''Keep going until you'' @ [CHR 0x27] @ ''re done.''"

text \<open>The \<open>catch\<close> block, lines 65 to 72.\<close>

definition errorMessage :: "runtime \<Rightarrow> thrown \<Rightarrow> string" where
  "errorMessage rt e =
     (case e of
        TypeError \<Rightarrow> type_error_message rt
      | Error m \<Rightarrow> m
      | NonError \<Rightarrow> ''An unknown error occurred'')"

definition caught :: "runtime \<Rightarrow> thrown \<Rightarrow> api_call list \<Rightarrow> handled" where
  "caught rt e calls =
     \<lparr>response =
        \<lparr>status = 500,
         headers = [(''Content-Type'', ''application/json'')],
         body = Text (stringify (JObj [(''error'', JObj [(''message'', JStr (errorMessage rt e))])]))\<rparr>,
      api_calls = calls,
      logged = [e]\<rparr>"

text \<open>A response with a text body and a status, as lines 26 and 33 build it.\<close>

definition plain :: "nat \<Rightarrow> string \<Rightarrow> handled" where
  "plain st msg =
     \<lparr>response = \<lparr>status = st, headers = [], body = Text msg\<rparr>, api_calls = [], logged = []\<rparr>"

text \<open>
  The stream of lines 46 to 56: one enqueued chunk per chunk of the model, then
  \<open>controller.close()\<close>; a throw of the iteration happens inside \<open>start\<close>, after the
  response was returned, and leaves the stream errored.
\<close>

definition sse :: "json \<Rightarrow> string" where
  "sse chunk = encode (''data: '' @ stringify chunk @ [NL, NL])"

definition streamed :: "api_call \<Rightarrow> json list \<times> thrown option \<Rightarrow> handled" where
  "streamed call result =
     \<lparr>response =
        \<lparr>status = 200,
         headers = [(''Content-Type'', ''text/event-stream''),
                    (''Cache-Control'', ''no-cache''),
                    (''Connection'', ''keep-alive'')],
         body = Stream (map sse (fst result))
                  (case snd result of None \<Rightarrow> Closed | Some e \<Rightarrow> Errored e)\<rparr>,
      api_calls = [call],
      logged = []\<rparr>"

text \<open>
  The argument of the call of lines 36 to 42. The concatenation of line 38 converts the
  message to a string and throws when it has no conversion.
\<close>

definition request_for :: "json option \<Rightarrow> thrown + api_call" where
  "request_for message =
     (case to_str message of
        Inl e \<Rightarrow> Inl e
      | Inr m \<Rightarrow>
          Inr \<lparr>model = ''gemini-2.5-flash-image-preview'',
               contents = m @ additionalInstructions,
               responseModalities = [''TEXT'', ''IMAGE'']\<rparr>)"

text \<open>
  Lines 36 to 64, in the \<open>try\<close> block of line 29: a throw of line 38 reaches the \<open>catch\<close>
  block before the model is called.
\<close>

definition call_model :: "runtime \<Rightarrow> json option \<Rightarrow> handled" where
  "call_model rt message =
     (case request_for message of
        Inl e \<Rightarrow> caught rt e []
      | Inr call \<Rightarrow>
          (case generateContentStream rt call of
             Inl e \<Rightarrow> caught rt e [call]
           | Inr result \<Rightarrow> streamed call result))"

definition handler :: "runtime \<Rightarrow> request \<Rightarrow> handled" where
  "handler rt req =
     (if req_method req \<noteq> ''POST'' then plain 405 ''Method Not Allowed''
      else
        (case req_json req of
           Inl e \<Rightarrow> caught rt e []
         | Inr parsed \<Rightarrow>
             (case get_prop (Some parsed) ''message'' of
                Inl e \<Rightarrow> caught rt e []
              | Inr message \<Rightarrow>
                  if \<not> truthy message then plain 400 ''Missing message in request body''
                  else call_model rt message)))"

section \<open>Observations used to state the properties\<close>

text \<open>
  What the loop body does on one part, by the part alone. It \<open>throws\<close> on a part that is
  \<open>null\<close> (line 150), on a truthy \<open>part.text\<close> without a conversion to a string (line
  151), and on a truthy \<open>inlineData.data\<close> without one (line 154). \<open>text_of\<close> is the
  text appended to \<open>text\<close>: nothing when \<open>part.text\<close> is falsy or its conversion throws.
  \<open>image_of\<close> is the element assigned to \<open>img\<close>: none when \<open>part.text\<close> is truthy or
  there is no truthy \<open>inlineData.data\<close>, the element without a \<open>src\<close> when the conversion
  of the data throws.
\<close>

definition throws :: "json \<Rightarrow> bool" where
  "throws part =
     (case get_prop (Some part) ''text'' of
        Inl e \<Rightarrow> True
      | Inr t \<Rightarrow>
          if truthy t then isl (to_str t)
          else
            let d = opt_prop (opt_prop (Some part) ''inlineData'') ''data'' in
            truthy d \<and> isl (to_str d))"

definition text_of :: "json \<Rightarrow> string" where
  "text_of part =
     (case get_prop (Some part) ''text'' of
        Inl e \<Rightarrow> []
      | Inr t \<Rightarrow>
          if truthy t then (case to_str t of Inl e \<Rightarrow> [] | Inr str \<Rightarrow> str) else [])"

definition image_of :: "json \<Rightarrow> image option" where
  "image_of part =
     (case get_prop (Some part) ''text'' of
        Inl e \<Rightarrow> None
      | Inr t \<Rightarrow>
          if truthy t then None
          else
            let d = opt_prop (opt_prop (Some part) ''inlineData'') ''data'' in
            if truthy d then
              (case to_str d of
                 Inl e \<Rightarrow> Some (Img [])
               | Inr str \<Rightarrow> Some (Img (''data:image/png;base64,'' @ str)))
            else None)"

text \<open>The state when lines 150 to 155 have run on a part, to their end or to their throw.\<close>

definition absorbed :: "gen \<Rightarrow> json \<Rightarrow> gen" where
  "absorbed s part =
     s\<lparr>cur_text := cur_text s @ text_of part,
       cur_img := (case image_of part of None \<Rightarrow> cur_img s | Some i \<Rightarrow> Some i)\<rparr>"

text \<open>The state after the loop body has run on a part, to its end or to its throw.\<close>

definition step :: "gen \<Rightarrow> json \<Rightarrow> gen" where
  "step s part = (case process_part s part of Inr s' \<Rightarrow> s' | Inl (e, s') \<Rightarrow> s')"

text \<open>
  The parts on which the loop body runs, in the order of arrival, with what is thrown if
  the loops stop early: a part on which the body throws is the last one of its chunk.
  Whether a loop throws depends on the chunk alone, not on the state: the body throws as
  \<open>throws\<close> says, the loop headers on a missing \<open>content\<close> and on values that are not
  iterable. These functions follow the loops of \<open>process_parts\<close>, \<open>process_candidate\<close>,
  \<open>process_candidates\<close>, \<open>process_chunk\<close>, \<open>process_line\<close>, \<open>process_read\<close> and
  \<open>generate\<close>.
\<close>

fun parts_visited :: "json list \<Rightarrow> thrown option \<times> json list" where
  "parts_visited [] = (None, [])"
| "parts_visited (part # parts) =
     (if throws part then (Some TypeError, [part])
      else (case parts_visited parts of (e, v) \<Rightarrow> (e, part # v)))"

definition candidate_visited :: "json \<Rightarrow> thrown option \<times> json list" where
  "candidate_visited candidate =
     (case get_prop (Some candidate) ''content'' of
        Inl e \<Rightarrow> (Some e, [])
      | Inr content \<Rightarrow>
          (case get_prop content ''parts'' of
             Inl e \<Rightarrow> (Some e, [])
           | Inr parts \<Rightarrow>
               (case iterate (Some (nullish parts (JArr []))) of
                  Inl e \<Rightarrow> (Some e, [])
                | Inr ps \<Rightarrow> parts_visited ps)))"

fun candidates_visited :: "json list \<Rightarrow> thrown option \<times> json list" where
  "candidates_visited [] = (None, [])"
| "candidates_visited (candidate # candidates) =
     (case candidate_visited candidate of
        (Some e, v) \<Rightarrow> (Some e, v)
      | (None, v) \<Rightarrow> (case candidates_visited candidates of (e, w) \<Rightarrow> (e, v @ w)))"

definition chunk_visited :: "json \<Rightarrow> thrown option \<times> json list" where
  "chunk_visited chunk =
     (case get_prop (Some chunk) ''candidates'' of
        Inl e \<Rightarrow> (Some e, [])
      | Inr candidates \<Rightarrow>
          (case iterate candidates of
             Inl e \<Rightarrow> (Some e, [])
           | Inr cs \<Rightarrow> candidates_visited cs))"

definition line_visited :: "(string \<Rightarrow> thrown + json) \<Rightarrow> string \<Rightarrow> json list" where
  "line_visited parse line =
     (case parse (replace line ''data: '' []) of
        Inl e \<Rightarrow> []
      | Inr chunk \<Rightarrow> snd (chunk_visited chunk))"

definition visited :: "(string \<Rightarrow> thrown + json) \<Rightarrow> string list \<Rightarrow> json list" where
  "visited parse reads =
     concat (map (\<lambda>value. concat (map (line_visited parse) (lines_of (decode value)))) reads)"

text \<open>
  For a run of consecutive parts: the concatenation of their text fragments, their image
  fragments in order, and the image that is pending after them (the last one).
\<close>

definition texts :: "json list \<Rightarrow> string" where
  "texts ps = concat (map text_of ps)"

definition images :: "json list \<Rightarrow> image list" where
  "images ps = concat (map (\<lambda>p. case image_of p of None \<Rightarrow> [] | Some i \<Rightarrow> [i]) ps)"

definition pending :: "json list \<Rightarrow> image option" where
  "pending ps = (if images ps = [] then None else Some (last (images ps)))"

text \<open>
  A run of parts is \<open>ready\<close> when it holds both a caption and an image. It \<open>emits\<close>
  when it is ready and the loop body runs to its end on its last part, so that the check of
  line 157 is reached. It \<open>completes\<close> a slide when it emits and none of its proper
  prefixes does: its last part is the first at which line 157 finds both. It is \<open>waiting\<close>
  when none of its prefixes emits, itself included.
\<close>

definition ready :: "json list \<Rightarrow> bool" where
  "ready ps = (texts ps \<noteq> [] \<and> images ps \<noteq> [])"

definition emits :: "json list \<Rightarrow> bool" where
  "emits ps = (ps \<noteq> [] \<and> \<not> throws (last ps) \<and> ready ps)"

definition waiting :: "json list \<Rightarrow> bool" where
  "waiting ps = list_all (\<lambda>pre. \<not> emits pre) (prefixes ps)"

definition completes :: "json list \<Rightarrow> bool" where
  "completes ps = (emits ps \<and> list_all (\<lambda>pre. \<not> emits pre) (butlast (prefixes ps)))"

text \<open>The slide that a completing run of parts stands for.\<close>

definition slide_of :: "json list \<Rightarrow> slide" where
  "slide_of ps = \<lparr>image = last (images ps), caption = texts ps\<rparr>"

text \<open>A candidate whose \<open>content\<close> is there and has no \<open>parts\<close>, or an empty array of them.\<close>

definition zero_parts :: "json \<Rightarrow> bool" where
  "zero_parts candidate =
     (case get_prop (Some candidate) ''content'' of
        Inl e \<Rightarrow> False
      | Inr None \<Rightarrow> False
      | Inr (Some content) \<Rightarrow>
          get_prop (Some content) ''parts'' = Inr None \<or>
          get_prop (Some content) ''parts'' = Inr (Some (JArr [])))"



text \<open>The bytes of a response body, in order.\<close>

definition body_bytes :: "body \<Rightarrow> string" where
  "body_bytes b = (case b of Text t \<Rightarrow> encode t | Stream chunks e \<Rightarrow> concat chunks)"

text \<open>
  Whether the parsed request body has a truthy \<open>message\<close> field (\<open>null\<close> and the values
  that are not objects have no fields).
\<close>

definition has_message :: "json \<Rightarrow> bool" where
  "has_message parsed = truthy (opt_prop (Some parsed) ''message'')"

section \<open>Example data\<close>

text \<open>
  A stream as the model sends it: chunks of one candidate whose content has one part, a text
  or an inline image.
\<close>

definition example_chunk :: "json list \<Rightarrow> json" where
  "example_chunk parts =
     JObj [(''candidates'',
            JArr [JObj [(''content'', JObj [(''parts'', JArr parts)])]])]"

definition example_text :: "string \<Rightarrow> json" where
  "example_text t = JObj [(''text'', JStr t)]"

definition example_image :: "string \<Rightarrow> json" where
  "example_image d = JObj [(''inlineData'', JObj [(''mimeType'', JStr ''image/png''), (''data'', JStr d)])]"

definition example_chunks :: "json list" where
  "example_chunks =
     [example_chunk [example_text ''Tiny ''],
      example_chunk [example_text ''cats''],
      example_chunk [example_image ''AAAA''],
      example_chunk [example_image ''BBBB''],
      example_chunk [example_image ''CCCC''],
      example_chunk [example_text ''purr'']]"

text \<open>
  A stand-in for \<open>JSON.parse\<close> on the examples: it gives back each listed value from its
  serialisation and rejects every other string.
\<close>

definition table_parse :: "json list \<Rightarrow> string \<Rightarrow> thrown + json" where
  "table_parse chunks s =
     (case map_of (map (\<lambda>c. (stringify c, c)) chunks) s of
        Some c \<Rightarrow> Inr c
      | None \<Rightarrow> Inl (Error ''Unexpected token''))"

definition example_parse :: "string \<Rightarrow> thrown + json" where
  "example_parse = table_parse example_chunks"

text \<open>The reads of the client when every read delivers one enqueued chunk of the proxy.\<close>

definition example_reads :: "string list" where
  "example_reads = map sse example_chunks"


definition example_zero_parts :: json where
  "example_zero_parts =
     JObj [(''candidates'',
            JArr [JObj [(''content'', JObj [(''parts'', JArr []), (''role'', JStr ''model'')])],
                  JObj [(''content'', JObj [(''role'', JStr ''model'')])]])]"

definition example_event_chunk :: json where
  "example_event_chunk = example_chunk [example_text ''Tiny '']"

definition example_event :: string where
  "example_event = sse example_event_chunk"

text \<open>Requests, and runtimes whose model yields the examples or rejects.\<close>

definition example_request :: request where
  "example_request = \<lparr>req_method = ''POST'', req_json = Inr (JObj [(''message'', JStr ''gravity'')])\<rparr>"

definition example_runtime :: runtime where
  "example_runtime =
     \<lparr>generateContentStream = (\<lambda>call. Inr (example_chunks, None)),
      type_error_message = ''Cannot convert object to primitive value''\<rparr>"

definition example_single_runtime :: runtime where
  "example_single_runtime =
     \<lparr>generateContentStream = (\<lambda>call. Inr ([example_event_chunk], None)),
      type_error_message = ''Cannot convert object to primitive value''\<rparr>"

text \<open>
  A value without a conversion to a string, a part whose image data is such a value, and a
  part whose text is one.
\<close>

definition example_unprintable :: json where
  "example_unprintable = JObj [(''toString'', JNum ''1'')]"

definition example_bad_image :: json where
  "example_bad_image = JObj [(''inlineData'', JObj [(''data'', example_unprintable)])]"

definition example_bad_text :: json where
  "example_bad_text = JObj [(''text'', example_unprintable)]"

definition example_interrupted :: "json list" where
  "example_interrupted =
     [example_chunk [example_text ''a''],
      example_chunk [example_bad_image, example_text ''lost''],
      example_chunk [example_bad_text, example_text ''lost''],
      example_chunk [example_text ''b'']]"

definition example_failing_runtime :: runtime where
  "example_failing_runtime =
     \<lparr>generateContentStream = (\<lambda>call. Inl (Error ''quota exceeded'')),
      type_error_message = ''Cannot convert object to primitive value''\<rparr>"

definition example_interrupted_parse :: "string \<Rightarrow> thrown + json" where
  "example_interrupted_parse = table_parse example_interrupted"

definition example_interrupted_reads :: "string list" where
  "example_interrupted_reads = map sse example_interrupted"

section \<open>Properties of the client loop\<close>

lemma get_prop_Some_Inl: "get_prop (Some v) k = Inl e \<longleftrightarrow> v = JNull \<and> e = TypeError"
  by (cases v) auto

lemma collect_Inl: "collect rs = Inl e \<Longrightarrow> Inl e \<in> set rs"
  by (induction rs rule: collect.induct) (auto split: sum.splits)

lemma ToString_Inl: "ToString v = Inl e \<Longrightarrow> e = TypeError"
proof (induction v arbitrary: e)
  case (JArr xs)
  from JArr.prems have "collect (map (\<lambda>x. if x = JNull then Inr [] else ToString x) xs) = Inl e"
    by (auto split: sum.splits)
  then have "Inl e \<in> set (map (\<lambda>x. if x = JNull then Inr [] else ToString x) xs)"
    by (rule collect_Inl)
  then obtain x where "x \<in> set xs" and "ToString x = Inl e"
    by (auto split: if_splits)
  then show ?case
    by (rule JArr.IH)
qed (auto split: if_splits)

lemma to_str_Inl: "to_str v = Inl e \<Longrightarrow> e = TypeError"
  by (cases v) (auto dest: ToString_Inl)

lemma absorb_eq:
  "absorb s part = (if throws part then Inl (TypeError, absorbed s part) else Inr (absorbed s part))"
  by (cases part)
     (auto simp: absorb_def absorbed_def throws_def text_of_def image_of_def Let_def isl_def
           dest: to_str_Inl split: sum.splits)

lemma step_eq: "step s part = (if throws part then absorbed s part else emit (absorbed s part))"
  by (simp add: step_def process_part_def absorb_eq)

lemma process_part_eq:
  "process_part s part = (if throws part then Inl (TypeError, step s part) else Inr (step s part))"
  by (simp add: step_def process_part_def absorb_eq)

lemma process_parts_visited:
  "process_parts s ps = (fst (parts_visited ps), foldl step s (snd (parts_visited ps)))"
  by (induction ps arbitrary: s) (auto simp: process_part_eq split: prod.splits)

lemma process_candidate_visited:
  "process_candidate s c = (fst (candidate_visited c), foldl step s (snd (candidate_visited c)))"
  by (auto simp: process_candidate_def candidate_visited_def process_parts_visited split: sum.splits)

lemma process_candidates_visited:
  "process_candidates s cs = (fst (candidates_visited cs), foldl step s (snd (candidates_visited cs)))"
  by (induction cs arbitrary: s)
     (auto simp: process_candidate_visited split: prod.splits option.splits)

lemma process_chunk_visited:
  "process_chunk s c = (fst (chunk_visited c), foldl step s (snd (chunk_visited c)))"
  by (auto simp: process_chunk_def chunk_visited_def process_candidates_visited split: sum.splits)

lemma step_console: "step (s\<lparr>console := c\<rparr>) part = (step s part)\<lparr>console := c\<rparr>"
  by (auto simp: step_eq absorbed_def emit_def addSlide_def split: option.splits)

lemma foldl_step_console: "foldl step (s\<lparr>console := c\<rparr>) ps = (foldl step s ps)\<lparr>console := c\<rparr>"
  by (induction ps arbitrary: s) (auto simp: step_console)

lemma console_step: "console (step s part) = console s"
  by (auto simp: step_eq absorbed_def emit_def addSlide_def split: option.splits)

lemma console_foldl_step: "console (foldl step s ps) = console s"
  by (induction ps arbitrary: s) (auto simp: console_step)

lemma process_line_visited:
  "\<exists>c. process_line parse s line = (foldl step s (line_visited parse line))\<lparr>console := c\<rparr>"
proof (cases "parse (replace line ''data: '' [])")
  case (Inl e)
  then have "process_line parse s line = s\<lparr>console := console s @ [e]\<rparr>"
    by (simp add: process_line_def console_error_def)
  with Inl show ?thesis
    by (auto simp: line_visited_def)
next
  case (Inr chunk)
  show ?thesis
  proof (cases "fst (chunk_visited chunk)")
    case None
    with Inr have "process_line parse s line = foldl step s (line_visited parse line)"
      by (simp add: process_line_def line_visited_def process_chunk_visited)
    then have "process_line parse s line =
        (foldl step s (line_visited parse line))\<lparr>console := console (foldl step s (line_visited parse line))\<rparr>"
      by simp
    then show ?thesis by blast
  next
    case (Some e)
    with Inr have "process_line parse s line =
        (foldl step s (line_visited parse line))\<lparr>console := console s @ [e]\<rparr>"
      by (simp add: process_line_def line_visited_def process_chunk_visited console_error_def
          console_foldl_step)
    then show ?thesis by blast
  qed
qed

lemma foldl_visited:
  assumes "\<And>s x. \<exists>c. f s x = (foldl step s (v x))\<lparr>console := c\<rparr>"
  shows "\<exists>c. foldl f s xs = (foldl step s (concat (map v xs)))\<lparr>console := c\<rparr>"
proof (induction xs arbitrary: s)
  case Nil
  have "s = s\<lparr>console := console s\<rparr>" by simp
  then show ?case by (metis foldl_Nil concat.simps(1) list.simps(8))
next
  case (Cons x xs)
  obtain c where c: "f s x = (foldl step s (v x))\<lparr>console := c\<rparr>"
    using assms by blast
  obtain d where d: "foldl f (f s x) xs = (foldl step (f s x) (concat (map v xs)))\<lparr>console := d\<rparr>"
    using Cons.IH by blast
  have "foldl f s (x # xs) = foldl f (f s x) xs"
    by simp
  also have "\<dots> = (foldl step (f s x) (concat (map v xs)))\<lparr>console := d\<rparr>"
    by (rule d)
  also have "\<dots> = (foldl step s (concat (map v (x # xs))))\<lparr>console := d\<rparr>"
    by (simp add: c foldl_step_console)
  finally show ?case by blast
qed

lemma process_read_visited:
  "\<exists>c. process_read parse s value =
     (foldl step s (concat (map (line_visited parse) (lines_of (decode value)))))\<lparr>console := c\<rparr>"
  unfolding process_read_def by (rule foldl_visited) (rule process_line_visited)

lemma generate_visited:
  "\<exists>c. generate parse s reads = (foldl step s (visited parse reads))\<lparr>console := c\<rparr>"
  unfolding generate_def visited_def by (rule foldl_visited) (rule process_read_visited)

lemma texts_snoc: "texts (ps @ [p]) = texts ps @ text_of p"
  by (simp add: texts_def)

lemma images_snoc: "images (ps @ [p]) = images ps @ (case image_of p of None \<Rightarrow> [] | Some i \<Rightarrow> [i])"
  by (simp add: images_def)

lemma pending_snoc: "pending (ps @ [p]) = (case image_of p of None \<Rightarrow> pending ps | Some i \<Rightarrow> Some i)"
  by (simp add: pending_def images_snoc split: option.splits)

lemma emits_snoc: "emits (ps @ [p]) \<longleftrightarrow> \<not> throws p \<and> ready (ps @ [p])"
  by (simp add: emits_def)

lemma waiting_snoc: "waiting (ps @ [p]) \<longleftrightarrow> waiting ps \<and> \<not> emits (ps @ [p])"
  by (simp add: waiting_def)

lemma completes_snoc: "completes (ps @ [p]) \<longleftrightarrow> waiting ps \<and> emits (ps @ [p])"
  by (auto simp: waiting_def completes_def)

lemma ready_pending: "ready ps \<longleftrightarrow> texts ps \<noteq> [] \<and> pending ps \<noteq> None"
  by (simp add: ready_def pending_def)

lemma segmentation:
  assumes "cur_text s0 = []" and "cur_img s0 = None"
  shows "\<exists>segs rest. ps = concat segs @ rest \<and> list_all completes segs \<and> waiting rest \<and>
           slideshow (foldl step s0 ps) = slideshow s0 @ map slide_of segs \<and>
           cur_text (foldl step s0 ps) = texts rest \<and>
           cur_img (foldl step s0 ps) = pending rest"
proof (induction ps rule: rev_induct)
  case Nil
  have "[] = concat [] @ ([] :: json list) \<and> list_all completes [] \<and> waiting [] \<and>
        slideshow (foldl step s0 []) = slideshow s0 @ map slide_of [] \<and>
        cur_text (foldl step s0 []) = texts [] \<and> cur_img (foldl step s0 []) = pending []"
    using assms by (simp add: waiting_def emits_def texts_def images_def pending_def)
  then show ?case by blast
next
  case (snoc p ps)
  then obtain segs rest where
    ps: "ps = concat segs @ rest" and segs: "list_all completes segs" and rest: "waiting rest" and
    sl: "slideshow (foldl step s0 ps) = slideshow s0 @ map slide_of segs" and
    tx: "cur_text (foldl step s0 ps) = texts rest" and
    im: "cur_img (foldl step s0 ps) = pending rest"
    by auto
  let ?s = "foldl step s0 ps"
  let ?a = "absorbed ?s p"
  have run: "foldl step s0 (ps @ [p]) = (if throws p then ?a else emit ?a)"
    by (simp add: step_eq)
  have atx: "cur_text ?a = texts (rest @ [p])"
    by (simp add: absorbed_def tx texts_snoc)
  have aim: "cur_img ?a = pending (rest @ [p])"
    by (simp add: absorbed_def im pending_snoc split: option.splits)
  have asl: "slideshow ?a = slideshow s0 @ map slide_of segs"
    by (simp add: absorbed_def sl)
  show ?case
  proof (cases "emits (rest @ [p])")
    case True
    then have np: "\<not> throws p" and rd: "ready (rest @ [p])"
      by (simp_all add: emits_snoc)
    from rd obtain i where i: "pending (rest @ [p]) = Some i" and t: "texts (rest @ [p]) \<noteq> []"
      by (auto simp: ready_pending)
    have li: "last (images (rest @ [p])) = i"
      using i by (simp add: pending_def split: if_splits)
    have "ps @ [p] = concat (segs @ [rest @ [p]]) @ []"
      by (simp add: ps)
    moreover have "list_all completes (segs @ [rest @ [p]])"
      using segs rest True by (simp add: completes_snoc)
    moreover have "waiting []"
      by (simp add: waiting_def emits_def)
    moreover have "slideshow (foldl step s0 (ps @ [p])) = slideshow s0 @ map slide_of (segs @ [rest @ [p]])"
      using t i np by (simp add: run emit_def atx aim asl addSlide_def slide_of_def li del: foldl_append)
    moreover have "cur_text (foldl step s0 (ps @ [p])) = texts []"
      using t i np by (simp add: run emit_def atx aim addSlide_def texts_def del: foldl_append)
    moreover have "cur_img (foldl step s0 (ps @ [p])) = pending []"
      using t i np by (simp add: run emit_def atx aim addSlide_def pending_def images_def del: foldl_append)
    ultimately show ?thesis by blast
  next
    case False
    have same: "foldl step s0 (ps @ [p]) = ?a"
    proof (cases "throws p")
      case True
      then show ?thesis by (simp only: run if_True)
    next
      case np: False
      with False have "\<not> ready (rest @ [p])"
        by (simp add: emits_snoc)
      then have "emit ?a = ?a"
        by (auto simp: emit_def atx aim ready_pending simp del: foldl_append split: option.splits)
      with np show ?thesis by (simp only: run if_False)
    qed
    have "ps @ [p] = concat segs @ (rest @ [p])"
      by (simp add: ps)
    moreover have "waiting (rest @ [p])"
      using rest False by (simp add: waiting_snoc)
    moreover have "slideshow (foldl step s0 (ps @ [p])) = slideshow s0 @ map slide_of segs"
      by (simp only: same asl)
    moreover have "cur_text (foldl step s0 (ps @ [p])) = texts (rest @ [p])"
      by (simp only: same atx)
    moreover have "cur_img (foldl step s0 (ps @ [p])) = pending (rest @ [p])"
      by (simp only: same aim)
    ultimately show ?thesis using segs by blast
  qed
qed

lemma generate_segments:
  "\<exists>segs rest. visited parse reads = concat segs @ rest \<and> list_all completes segs \<and> waiting rest \<and>
     slideshow (generate parse start reads) = map slide_of segs \<and>
     cur_text (generate parse start reads) = texts rest \<and>
     cur_img (generate parse start reads) = pending rest"
proof -
  obtain c where c: "generate parse start reads = (foldl step start (visited parse reads))\<lparr>console := c\<rparr>"
    using generate_visited by blast
  have "cur_text start = []" and "cur_img start = None" and "slideshow start = []"
    by (simp_all add: start_def)
  with segmentation [of start "visited parse reads"]
  show ?thesis
    by (simp add: c)
qed

lemma step_prefix: "prefix (slideshow s) (slideshow (step s part))"
  by (auto simp: step_eq absorbed_def emit_def addSlide_def split: option.splits)

lemma foldl_step_prefix: "prefix (slideshow s) (slideshow (foldl step s ps))"
proof (induction ps arbitrary: s)
  case Nil
  show ?case by simp
next
  case (Cons p ps)
  have "prefix (slideshow s) (slideshow (step s p))"
    by (rule step_prefix)
  also have "prefix (slideshow (step s p)) (slideshow (foldl step (step s p) ps))"
    by (rule Cons.IH)
  finally show ?case by simp
qed

lemma example_visited:
  "visited example_parse example_reads =
     [example_text ''Tiny '', example_text ''cats'', example_image ''AAAA'',
      example_image ''BBBB'', example_image ''CCCC'', example_text ''purr'']"
  by code_simp

lemma example_run:
  "slideshow (generate example_parse start example_reads) =
     [\<lparr>image = Img ''data:image/png;base64,AAAA'', caption = ''Tiny cats''\<rparr>,
      \<lparr>image = Img ''data:image/png;base64,CCCC'', caption = ''purr''\<rparr>] \<and>
   cur_text (generate example_parse start example_reads) = [] \<and>
   cur_img (generate example_parse start example_reads) = None"
proof -
  obtain c where "generate example_parse start example_reads =
      (foldl step start (visited example_parse example_reads))\<lparr>console := c\<rparr>"
    using generate_visited by blast
  moreover have "foldl step start
      [example_text ''Tiny '', example_text ''cats'', example_image ''AAAA'',
       example_image ''BBBB'', example_image ''CCCC'', example_text ''purr''] =
     \<lparr>cur_text = [], cur_img = None,
      slideshow = [\<lparr>image = Img ''data:image/png;base64,AAAA'', caption = ''Tiny cats''\<rparr>,
                   \<lparr>image = Img ''data:image/png;base64,CCCC'', caption = ''purr''\<rparr>],
      hidden = False, console = []\<rparr>"
    by (simp add: step_def process_part_def absorb_def emit_def addSlide_def start_def
        example_text_def example_image_def)
  ultimately show ?thesis
    by (simp add: example_visited)
qed

lemma example_interrupted_visited:
  "visited example_interrupted_parse example_interrupted_reads =
     [example_text ''a'', example_bad_image, example_bad_text, example_text ''b''] \<and>
   visited example_interrupted_parse (take 2 example_interrupted_reads) =
     [example_text ''a'', example_bad_image]"
  by code_simp

lemma example_interrupted_run:
  "slideshow (generate example_interrupted_parse start example_interrupted_reads) =
     [\<lparr>image = Img [], caption = ''ab''\<rparr>] \<and>
   slideshow (generate example_interrupted_parse start (take 2 example_interrupted_reads)) = [] \<and>
   cur_text (generate example_interrupted_parse start (take 2 example_interrupted_reads)) = ''a'' \<and>
   cur_img (generate example_interrupted_parse start (take 2 example_interrupted_reads)) = Some (Img [])"
proof -
  obtain c where "generate example_interrupted_parse start example_interrupted_reads =
      (foldl step start (visited example_interrupted_parse example_interrupted_reads))\<lparr>console := c\<rparr>"
    using generate_visited by blast
  moreover obtain d where "generate example_interrupted_parse start (take 2 example_interrupted_reads) =
      (foldl step start (visited example_interrupted_parse (take 2 example_interrupted_reads)))\<lparr>console := d\<rparr>"
    using generate_visited by blast
  moreover have "foldl step start [example_text ''a'', example_bad_image, example_bad_text, example_text ''b''] =
     \<lparr>cur_text = [], cur_img = None, slideshow = [\<lparr>image = Img [], caption = ''ab''\<rparr>],
      hidden = False, console = []\<rparr>"
    by (simp add: step_def process_part_def absorb_def emit_def addSlide_def start_def
        example_text_def example_bad_image_def example_bad_text_def example_unprintable_def)
  moreover have "foldl step start [example_text ''a'', example_bad_image] =
     \<lparr>cur_text = ''a'', cur_img = Some (Img []), slideshow = [], hidden = True, console = []\<rparr>"
    by (simp add: step_def process_part_def absorb_def emit_def addSlide_def start_def
        example_text_def example_bad_image_def example_unprintable_def)
  ultimately show ?thesis
    by (simp add: example_interrupted_visited)
qed

section \<open>The slides that the client emits\<close>

text \<open>
  Claim C1 as stated fails at a part on which the loop body throws after line 153. With
  \<open>text\<close> holding \<open>a\<close>, a part whose \<open>inlineData.data\<close> has no conversion to a string
  gets its element assigned to \<open>img\<close> and then throws at line 154: after that part the
  caption text is not empty and a pending image exists, and no slide is appended. So it is
  after the two reads that bring these parts. The slide comes with the next part on which
  the body runs to its end.
\<close>

theorem interrupted_part_counterexample:
  "process_part (start\<lparr>cur_text := ''a''\<rparr>) example_bad_image =
     Inl (TypeError, start\<lparr>cur_text := ''a'', cur_img := Some (Img [])\<rparr>) \<and>
   cur_text (generate example_interrupted_parse start (take 2 example_interrupted_reads)) \<noteq> [] \<and>
   cur_img (generate example_interrupted_parse start (take 2 example_interrupted_reads)) \<noteq> None \<and>
   slideshow (generate example_interrupted_parse start (take 2 example_interrupted_reads)) = [] \<and>
   slideshow (generate example_interrupted_parse start example_interrupted_reads) =
     [\<lparr>image = Img [], caption = ''ab''\<rparr>]"
proof -
  have "process_part (start\<lparr>cur_text := ''a''\<rparr>) example_bad_image =
     Inl (TypeError, start\<lparr>cur_text := ''a'', cur_img := Some (Img [])\<rparr>)"
    by (simp add: process_part_def absorb_def start_def example_bad_image_def example_unprintable_def)
  then show ?thesis
    by (simp add: example_interrupted_run)
qed

text \<open>
  Claim C1, amended. Over the whole run of \<open>generate\<close> from its start state, the parts
  visited split into consecutive runs, one per slide of the slideshow, each ending at the
  first part on which the loop body runs to its end and finds both a caption and an image,
  followed by a rest in which that never happens; \<open>text\<close> and \<open>img\<close> at the end are what
  the rest alone has accumulated (both empty right after an emission); every slide has a
  caption that is not empty. At each part on which lines 150 to 155 do not throw: when
  after them \<open>text\<close> is not empty and \<open>img\<close> is not null, the slide of the two is appended
  and both are reset; otherwise nothing is appended. A part on which they throw appends
  nothing and resets nothing.
\<close>

theorem slide_needs_caption_and_image:
  "(\<exists>segs rest. visited parse reads = concat segs @ rest \<and> list_all completes segs \<and> waiting rest \<and>
      length (slideshow (generate parse start reads)) = length segs \<and>
      cur_text (generate parse start reads) = texts rest \<and>
      cur_img (generate parse start reads) = pending rest) \<and>
   list_all (\<lambda>sl. caption sl \<noteq> []) (slideshow (generate parse start reads)) \<and>
   (absorb s part = Inr a \<longrightarrow>
      process_part s part =
        Inr (if cur_text a \<noteq> [] \<and> cur_img a \<noteq> None
             then a\<lparr>slideshow := slideshow a @ [\<lparr>image = the (cur_img a), caption = cur_text a\<rparr>],
                    hidden := False, cur_text := [], cur_img := None\<rparr>
             else a)) \<and>
   (absorb s part = Inl (e, a) \<longrightarrow>
      process_part s part = Inl (e, a) \<and> slideshow a = slideshow s \<and> cur_text a = cur_text s)"
proof -
  obtain segs rest where v: "visited parse reads = concat segs @ rest"
    and segs: "list_all completes segs" and rest: "waiting rest"
    and sl: "slideshow (generate parse start reads) = map slide_of segs"
    and tx: "cur_text (generate parse start reads) = texts rest"
    and im: "cur_img (generate parse start reads) = pending rest"
    using generate_segments by blast
  have "length (slideshow (generate parse start reads)) = length segs"
    by (simp add: sl)
  with v segs rest tx im have first: "\<exists>segs rest. visited parse reads = concat segs @ rest \<and>
      list_all completes segs \<and> waiting rest \<and>
      length (slideshow (generate parse start reads)) = length segs \<and>
      cur_text (generate parse start reads) = texts rest \<and>
      cur_img (generate parse start reads) = pending rest"
    by blast
  have second: "list_all (\<lambda>sl. caption sl \<noteq> []) (slideshow (generate parse start reads))"
    using segs by (auto simp: sl list_all_iff slide_of_def completes_def emits_def ready_def)
  have third: "absorb s part = Inr a \<longrightarrow>
      process_part s part =
        Inr (if cur_text a \<noteq> [] \<and> cur_img a \<noteq> None
             then a\<lparr>slideshow := slideshow a @ [\<lparr>image = the (cur_img a), caption = cur_text a\<rparr>],
                    hidden := False, cur_text := [], cur_img := None\<rparr>
             else a)"
    by (auto simp: process_part_def emit_def addSlide_def split: option.splits)
  have fourth: "absorb s part = Inl (e, a) \<longrightarrow>
      process_part s part = Inl (e, a) \<and> slideshow a = slideshow s \<and> cur_text a = cur_text s"
    by (auto simp: process_part_def absorb_eq absorbed_def text_of_def throws_def isl_def
        split: if_splits sum.splits)
  from first second third fourth show ?thesis by blast
qed

text \<open>
  On the example stream two slides come out, both captioned; a text part arriving while an
  image is pending emits the slide and resets both variables; a part whose image data has
  no conversion to a string throws and emits nothing.
\<close>

theorem slide_needs_caption_and_image_witness:
  "list_all (\<lambda>sl. caption sl \<noteq> []) (slideshow (generate example_parse start example_reads)) \<and>
   length (slideshow (generate example_parse start example_reads)) = 2 \<and>
   absorb (start\<lparr>cur_img := Some (Img ''i'')\<rparr>) (example_text ''hi'') =
     Inr (start\<lparr>cur_img := Some (Img ''i''), cur_text := ''hi''\<rparr>) \<and>
   process_part (start\<lparr>cur_img := Some (Img ''i'')\<rparr>) (example_text ''hi'') =
     Inr (start\<lparr>slideshow := [\<lparr>image = Img ''i'', caption = ''hi''\<rparr>], hidden := False\<rparr>) \<and>
   absorb (start\<lparr>cur_text := ''a''\<rparr>) example_bad_image =
     Inl (TypeError, start\<lparr>cur_text := ''a'', cur_img := Some (Img [])\<rparr>) \<and>
   process_part (start\<lparr>cur_text := ''a''\<rparr>) example_bad_image =
     Inl (TypeError, start\<lparr>cur_text := ''a'', cur_img := Some (Img [])\<rparr>)"
proof -
  have a: "absorb (start\<lparr>cur_img := Some (Img ''i'')\<rparr>) (example_text ''hi'') =
     Inr (start\<lparr>cur_img := Some (Img ''i''), cur_text := ''hi''\<rparr>)"
    by (simp add: absorb_def example_text_def start_def)
  have b: "absorb (start\<lparr>cur_text := ''a''\<rparr>) example_bad_image =
     Inl (TypeError, start\<lparr>cur_text := ''a'', cur_img := Some (Img [])\<rparr>)"
    by (simp add: absorb_def start_def example_bad_image_def example_unprintable_def)
  have p: "process_part (start\<lparr>cur_img := Some (Img ''i'')\<rparr>) (example_text ''hi'') =
     Inr (start\<lparr>slideshow := [\<lparr>image = Img ''i'', caption = ''hi''\<rparr>], hidden := False\<rparr>)"
    using slide_needs_caption_and_image [of example_parse example_reads
        "start\<lparr>cur_img := Some (Img ''i'')\<rparr>" "example_text ''hi''"
        "start\<lparr>cur_img := Some (Img ''i''), cur_text := ''hi''\<rparr>"] a
    by (simp add: start_def)
  have q: "process_part (start\<lparr>cur_text := ''a''\<rparr>) example_bad_image =
     Inl (TypeError, start\<lparr>cur_text := ''a'', cur_img := Some (Img [])\<rparr>)"
    using slide_needs_caption_and_image [of example_parse example_reads
        "start\<lparr>cur_text := ''a''\<rparr>" example_bad_image
        "start\<lparr>cur_text := ''a'', cur_img := Some (Img [])\<rparr>" TypeError] b
    by blast
  show ?thesis
    using a b p q by (simp add: example_run)
qed

text \<open>
  Claim C4. The parts are taken in the order of arrival: with the visited parts split into
  the runs that each complete a slide, the captions of the slideshow are, in order, the
  concatenations of the text fragments of those runs, that is, of the fragments that came
  since the slide before (or since the start).
\<close>

theorem captions_in_arrival_order:
  "\<exists>segs rest. visited parse reads = concat segs @ rest \<and> list_all completes segs \<and> waiting rest \<and>
     map caption (slideshow (generate parse start reads)) = map texts segs"
proof -
  obtain segs rest where "visited parse reads = concat segs @ rest" and "list_all completes segs"
    and "waiting rest" and "slideshow (generate parse start reads) = map slide_of segs"
    using generate_segments by blast
  moreover from this have "map caption (slideshow (generate parse start reads)) = map texts segs"
    by (simp add: slide_of_def)
  ultimately show ?thesis by blast
qed

text \<open>
  On the example stream the runs carry the captions \<open>Tiny cats\<close> and \<open>purr\<close>. On the
  stream with the parts that throw, the one run carries \<open>ab\<close>: the text that has no
  conversion to a string adds nothing, and the parts behind a throw are not visited.
\<close>

theorem captions_in_arrival_order_witness:
  "(\<exists>segs rest. visited example_parse example_reads = concat segs @ rest \<and>
      list_all completes segs \<and> waiting rest \<and>
      map texts segs = [''Tiny cats'', ''purr'']) \<and>
   (\<exists>segs rest. visited example_interrupted_parse example_interrupted_reads = concat segs @ rest \<and>
      list_all completes segs \<and> waiting rest \<and>
      map texts segs = [''ab''])"
proof -
  obtain segs rest where a: "visited example_parse example_reads = concat segs @ rest"
    and b: "list_all completes segs" and c: "waiting rest"
    and d: "map caption (slideshow (generate example_parse start example_reads)) = map texts segs"
    using captions_in_arrival_order [of example_parse example_reads] by blast
  from d have e: "map texts segs = [''Tiny cats'', ''purr'']"
    by (simp add: example_run)
  have first: "\<exists>segs rest. visited example_parse example_reads = concat segs @ rest \<and>
      list_all completes segs \<and> waiting rest \<and>
      map texts segs = [''Tiny cats'', ''purr'']"
    by (rule exI [of _ segs], rule exI [of _ rest]) (simp only: a b c e simp_thms)
  obtain segs' rest' where a': "visited example_interrupted_parse example_interrupted_reads = concat segs' @ rest'"
    and b': "list_all completes segs'" and c': "waiting rest'"
    and d': "map caption (slideshow (generate example_interrupted_parse start example_interrupted_reads)) =
             map texts segs'"
    using captions_in_arrival_order [of example_interrupted_parse example_interrupted_reads] by blast
  from d' have e': "map texts segs' = [''ab'']"
    by (simp add: example_interrupted_run)
  have second: "\<exists>segs rest. visited example_interrupted_parse example_interrupted_reads = concat segs @ rest \<and>
      list_all completes segs \<and> waiting rest \<and>
      map texts segs = [''ab'']"
    by (rule exI [of _ segs'], rule exI [of _ rest']) (simp only: a' b' c' e' simp_thms)
  from first second show ?thesis by (rule conjI)
qed

text \<open>
  Claim C5. The slides already in the slideshow stay as they are, in their places: whatever
  the state, the slideshow before a run of \<open>generate\<close> is a prefix of the slideshow after
  it, and so it is across every single part; a part on which the loop body throws leaves
  the slideshow as it was.
\<close>

theorem rendered_slides_are_kept:
  "prefix (slideshow s) (slideshow (generate parse s reads)) \<and>
   (process_part s part = Inr s' \<longrightarrow> prefix (slideshow s) (slideshow s')) \<and>
   (process_part s part = Inl (e, s') \<longrightarrow> slideshow s' = slideshow s)"
proof -
  obtain c where "generate parse s reads = (foldl step s (visited parse reads))\<lparr>console := c\<rparr>"
    using generate_visited by blast
  then have "prefix (slideshow s) (slideshow (generate parse s reads))"
    by (simp add: foldl_step_prefix)
  moreover have "process_part s part = Inr s' \<longrightarrow> prefix (slideshow s) (slideshow s')"
    using step_prefix [of s part] by (auto simp: step_def)
  moreover have "process_part s part = Inl (e, s') \<longrightarrow> slideshow s' = slideshow s"
    by (auto simp: process_part_def absorb_eq absorbed_def split: if_splits)
  ultimately show ?thesis by blast
qed

text \<open>
  A slide that is there stays first, after the example stream and after a part that emits;
  a part that throws leaves it alone.
\<close>

theorem rendered_slides_are_kept_witness:
  "prefix [\<lparr>image = Img ''i'', caption = ''c''\<rparr>]
     (slideshow (generate example_parse (start\<lparr>slideshow := [\<lparr>image = Img ''i'', caption = ''c''\<rparr>]\<rparr>) example_reads)) \<and>
   process_part (start\<lparr>slideshow := [\<lparr>image = Img ''i'', caption = ''c''\<rparr>], cur_img := Some (Img ''j'')\<rparr>)
       (example_text ''hi'') =
     Inr (start\<lparr>slideshow := [\<lparr>image = Img ''i'', caption = ''c''\<rparr>, \<lparr>image = Img ''j'', caption = ''hi''\<rparr>],
                hidden := False\<rparr>) \<and>
   prefix [\<lparr>image = Img ''i'', caption = ''c''\<rparr>]
     [\<lparr>image = Img ''i'', caption = ''c''\<rparr>, \<lparr>image = Img ''j'', caption = ''hi''\<rparr>] \<and>
   process_part (start\<lparr>slideshow := [\<lparr>image = Img ''i'', caption = ''c''\<rparr>]\<rparr>) example_bad_image =
     Inl (TypeError, start\<lparr>slideshow := [\<lparr>image = Img ''i'', caption = ''c''\<rparr>], cur_img := Some (Img [])\<rparr>)"
proof -
  let ?s = "start\<lparr>slideshow := [\<lparr>image = Img ''i'', caption = ''c''\<rparr>], cur_img := Some (Img ''j'')\<rparr>"
  let ?s' = "start\<lparr>slideshow := [\<lparr>image = Img ''i'', caption = ''c''\<rparr>, \<lparr>image = Img ''j'', caption = ''hi''\<rparr>],
                hidden := False\<rparr>"
  let ?t = "start\<lparr>slideshow := [\<lparr>image = Img ''i'', caption = ''c''\<rparr>]\<rparr>"
  let ?t' = "start\<lparr>slideshow := [\<lparr>image = Img ''i'', caption = ''c''\<rparr>], cur_img := Some (Img [])\<rparr>"
  have p: "process_part ?s (example_text ''hi'') = Inr ?s'"
    by (simp add: process_part_def absorb_def emit_def addSlide_def example_text_def start_def)
  have q: "process_part ?t example_bad_image = Inl (TypeError, ?t')"
    by (simp add: process_part_def absorb_def start_def example_bad_image_def example_unprintable_def)
  have "prefix (slideshow ?s) (slideshow ?s')"
    using rendered_slides_are_kept [of ?s example_parse example_reads "example_text ''hi''" ?s'] p
    by blast
  moreover have "slideshow ?t' = slideshow ?t"
    using rendered_slides_are_kept [of ?t example_parse example_reads example_bad_image ?t' TypeError] q
    by blast
  moreover have "prefix [\<lparr>image = Img ''i'', caption = ''c''\<rparr>]
     (slideshow (generate example_parse (start\<lparr>slideshow := [\<lparr>image = Img ''i'', caption = ''c''\<rparr>]\<rparr>) example_reads))"
    using rendered_slides_are_kept [of "start\<lparr>slideshow := [\<lparr>image = Img ''i'', caption = ''c''\<rparr>]\<rparr>"
        example_parse example_reads JNull start]
    by simp
  ultimately show ?thesis
    using p q by simp
qed

text \<open>
  Claim C10. An image fragment replaces the pending image: on a part that carries an
  image, line 153 sets \<open>img\<close> to its element whatever \<open>img\<close> was, also when line 154 then
  throws; and over the whole run the image of each slide is the element of the last image
  fragment of the run of parts that completes it, the earlier ones being dropped.
\<close>

theorem pending_image_is_replaced:
  "(\<exists>segs rest. visited parse reads = concat segs @ rest \<and> list_all completes segs \<and> waiting rest \<and>
      map image (slideshow (generate parse start reads)) = map (\<lambda>seg. last (images seg)) segs \<and>
      cur_img (generate parse start reads) = pending rest) \<and>
   (image_of part = Some i \<longrightarrow>
      absorb s part =
        (if throws part then Inl (TypeError, s\<lparr>cur_img := Some i\<rparr>) else Inr (s\<lparr>cur_img := Some i\<rparr>)))"
proof -
  obtain segs rest where v: "visited parse reads = concat segs @ rest"
    and segs: "list_all completes segs" and rest: "waiting rest"
    and sl: "slideshow (generate parse start reads) = map slide_of segs"
    and im: "cur_img (generate parse start reads) = pending rest"
    using generate_segments by blast
  have "map image (slideshow (generate parse start reads)) = map (\<lambda>seg. last (images seg)) segs"
    by (simp add: sl slide_of_def)
  with v segs rest im have first: "\<exists>segs rest. visited parse reads = concat segs @ rest \<and>
      list_all completes segs \<and> waiting rest \<and>
      map image (slideshow (generate parse start reads)) = map (\<lambda>seg. last (images seg)) segs \<and>
      cur_img (generate parse start reads) = pending rest"
    by blast
  have second: "image_of part = Some i \<longrightarrow>
      absorb s part =
        (if throws part then Inl (TypeError, s\<lparr>cur_img := Some i\<rparr>) else Inr (s\<lparr>cur_img := Some i\<rparr>))"
  proof
    assume i: "image_of part = Some i"
    then have "text_of part = []"
      by (auto simp: image_of_def text_of_def split: sum.splits if_splits)
    with i have "absorbed s part = s\<lparr>cur_img := Some i\<rparr>"
      by (simp add: absorbed_def)
    then show "absorb s part =
        (if throws part then Inl (TypeError, s\<lparr>cur_img := Some i\<rparr>) else Inr (s\<lparr>cur_img := Some i\<rparr>))"
      by (simp add: absorb_eq)
  qed
  from first second show ?thesis by blast
qed

text \<open>
  The image \<open>BBBB\<close> replaces a pending \<open>AAAA\<close>, and so does the element of a part whose
  data has no conversion to a string; in the example stream, where \<open>BBBB\<close> and \<open>CCCC\<close>
  arrive between the two emissions, the second slide shows \<open>CCCC\<close>.
\<close>

theorem pending_image_is_replaced_witness:
  "image_of (example_image ''BBBB'') = Some (Img ''data:image/png;base64,BBBB'') \<and>
   absorb (start\<lparr>cur_img := Some (Img ''data:image/png;base64,AAAA'')\<rparr>) (example_image ''BBBB'') =
     Inr (start\<lparr>cur_img := Some (Img ''data:image/png;base64,BBBB'')\<rparr>) \<and>
   image_of example_bad_image = Some (Img []) \<and>
   absorb (start\<lparr>cur_img := Some (Img ''data:image/png;base64,AAAA'')\<rparr>) example_bad_image =
     Inl (TypeError, start\<lparr>cur_img := Some (Img [])\<rparr>) \<and>
   map image (slideshow (generate example_parse start example_reads)) =
     [Img ''data:image/png;base64,AAAA'', Img ''data:image/png;base64,CCCC'']"
proof -
  have i: "image_of (example_image ''BBBB'') = Some (Img ''data:image/png;base64,BBBB'')"
    and n: "\<not> throws (example_image ''BBBB'')"
    by (simp_all add: image_of_def throws_def example_image_def)
  have j: "image_of example_bad_image = Some (Img [])"
    and t: "throws example_bad_image"
    by (simp_all add: image_of_def throws_def example_bad_image_def example_unprintable_def)
  show ?thesis
    using pending_image_is_replaced [of example_parse example_reads "example_image ''BBBB''"
        "Img ''data:image/png;base64,BBBB''" "start\<lparr>cur_img := Some (Img ''data:image/png;base64,AAAA'')\<rparr>"]
      pending_image_is_replaced [of example_parse example_reads example_bad_image
        "Img []" "start\<lparr>cur_img := Some (Img ''data:image/png;base64,AAAA'')\<rparr>"]
      i n j t
    by (simp add: example_run)
qed

section \<open>Chunks without parts and malformed payloads\<close>

lemma zero_parts_candidate: "zero_parts c \<Longrightarrow> process_candidate s c = (None, s)"
  by (auto simp: zero_parts_def process_candidate_def split: sum.splits option.splits)

lemma zero_parts_candidates: "list_all zero_parts cs \<Longrightarrow> process_candidates s cs = (None, s)"
  by (induction cs) (auto simp: zero_parts_candidate)

text \<open>
  Claim C6. A chunk whose \<open>candidates\<close> is an array of candidates that each have a content
  with no parts (the array missing or empty) is processed without a throw and leaves the
  whole state as it was, \<open>text\<close>, \<open>img\<close> and the slideshow included; so does the line that
  carries it.
\<close>

theorem chunk_without_parts_changes_nothing:
  assumes "get_prop (Some chunk) ''candidates'' = Inr (Some (JArr candidates))"
    and "list_all zero_parts candidates"
  shows "process_chunk s chunk = (None, s) \<and>
         (parse (replace line ''data: '' []) = Inr chunk \<longrightarrow> process_line parse s line = s)"
proof -
  have "process_chunk s chunk = (None, s)"
    using assms by (simp add: process_chunk_def zero_parts_candidates)
  then show ?thesis
    by (simp add: process_line_def)
qed

text \<open>A chunk of two candidates, one with an empty \<open>parts\<close> and one without \<open>parts\<close>.\<close>

theorem chunk_without_parts_changes_nothing_witness:
  "process_chunk (start\<lparr>cur_text := ''Tiny ''\<rparr>) example_zero_parts = (None, start\<lparr>cur_text := ''Tiny ''\<rparr>) \<and>
   process_line (table_parse [example_zero_parts]) (start\<lparr>cur_text := ''Tiny ''\<rparr>)
     (''data: '' @ stringify example_zero_parts) = start\<lparr>cur_text := ''Tiny ''\<rparr>"
proof -
  have c: "get_prop (Some example_zero_parts) ''candidates'' =
      Inr (Some (JArr [JObj [(''content'', JObj [(''parts'', JArr []), (''role'', JStr ''model'')])],
                       JObj [(''content'', JObj [(''role'', JStr ''model'')])]]))"
    by (simp add: example_zero_parts_def)
  have z: "list_all zero_parts [JObj [(''content'', JObj [(''parts'', JArr []), (''role'', JStr ''model'')])],
                       JObj [(''content'', JObj [(''role'', JStr ''model'')])]]"
    by (simp add: zero_parts_def)
  have p: "table_parse [example_zero_parts] (replace (''data: '' @ stringify example_zero_parts) ''data: '' []) =
      Inr example_zero_parts"
    by (simp add: table_parse_def startsWith_def)
  show ?thesis
    using chunk_without_parts_changes_nothing [OF c z, of "start\<lparr>cur_text := ''Tiny ''\<rparr>"
        "table_parse [example_zero_parts]" "''data: '' @ stringify example_zero_parts"] p
    by simp
qed



section \<open>Events cut by the transport\<close>

text \<open>
  Claim C3 fails on the code. Every read is decoded, split and filtered on its own, and
  nothing is carried over to the next read. The proxy's event for one chunk, read in one
  piece, gives its payload to \<open>JSON.parse\<close> and the text reaches \<open>text\<close>. Cut after its
  fourth byte, neither piece is a line that starts with \<open>data: \<close>: no payload is handed
  on and the state stays the start state. Cut after its thirtieth byte, the first piece
  hands on a truncated payload, which is rejected and logged, and the second piece is
  dropped.
\<close>

theorem event_split_across_reads_is_lost:
  "body (response (handler example_single_runtime example_request)) = Stream [example_event] Closed \<and>
   payloads example_event = [stringify example_event_chunk] \<and>
   generate (table_parse [example_event_chunk]) start [example_event] = start\<lparr>cur_text := ''Tiny ''\<rparr> \<and>
   take 4 example_event @ drop 4 example_event = example_event \<and>
   payloads (take 4 example_event) = [] \<and>
   payloads (drop 4 example_event) = [] \<and>
   generate (table_parse [example_event_chunk]) start [take 4 example_event, drop 4 example_event] = start \<and>
   take 30 example_event @ drop 30 example_event = example_event \<and>
   payloads (take 30 example_event) = [take 24 (stringify example_event_chunk)] \<and>
   payloads (drop 30 example_event) = [] \<and>
   generate (table_parse [example_event_chunk]) start [take 30 example_event, drop 30 example_event] =
     start\<lparr>console := [Error ''Unexpected token'']\<rparr>"
proof -
  have "body (response (handler example_single_runtime example_request)) = Stream [example_event] Closed"
    by (simp add: handler_def call_model_def request_for_def streamed_def
        example_single_runtime_def example_request_def example_event_def)
  moreover have "payloads example_event = [stringify example_event_chunk]"
    by code_simp
  moreover have "generate (table_parse [example_event_chunk]) start [example_event] =
      start\<lparr>cur_text := ''Tiny ''\<rparr>"
    by code_simp
  moreover have "take 4 example_event @ drop 4 example_event = example_event"
    and "take 30 example_event @ drop 30 example_event = example_event"
    by simp_all
  moreover have "payloads (take 4 example_event) = []"
    by code_simp
  moreover have "payloads (drop 4 example_event) = []"
    by code_simp
  moreover have "generate (table_parse [example_event_chunk]) start
      [take 4 example_event, drop 4 example_event] = start"
    by code_simp
  moreover have "payloads (take 30 example_event) = [take 24 (stringify example_event_chunk)]"
    by code_simp
  moreover have "payloads (drop 30 example_event) = []"
    by code_simp
  moreover have "generate (table_parse [example_event_chunk]) start
      [take 30 example_event, drop 30 example_event] = start\<lparr>console := [Error ''Unexpected token'']\<rparr>"
    by code_simp
  ultimately show ?thesis
    by (simp only: simp_thms)
qed

text \<open>
  With the cut after the fourth byte no line reaches \<open>JSON.parse\<close>, so the event is
  lost whatever \<open>JSON.parse\<close> does and whatever the state is.
\<close>

lemma event_cut_in_its_prefix:
  "generate parse s [take 4 example_event, drop 4 example_event] = s"
proof -
  have "lines_of (decode (take 4 example_event)) = []"
    by code_simp
  moreover have "lines_of (decode (drop 4 example_event)) = []"
    by code_simp
  ultimately show ?thesis
    by (simp add: generate_def process_read_def)
qed

text \<open>
  The same holds for a character of several bytes cut by a read: each piece is decoded
  alone and becomes \<open>U+FFFD\<close>.
\<close>

lemma character_split_across_reads:
  "decode [CHR 0xC3, CHR 0xA9] = [CHR 0xC3, CHR 0xA9] \<and>
   decode [CHR 0xC3] @ decode [CHR 0xA9] = replacement @ replacement"
  by (simp add: decode_def startsWith_def BOM_def replacement_def)

section \<open>The responses of the proxy\<close>

lemma get_prop_opt_prop: "parsed \<noteq> JNull \<Longrightarrow> get_prop (Some parsed) k = Inr (opt_prop (Some parsed) k)"
  by (cases parsed) auto

lemma request_for_string:
  "request_for (Some (JStr m)) =
     Inr \<lparr>model = ''gemini-2.5-flash-image-preview'',
          contents = m @ additionalInstructions,
          responseModalities = [''TEXT'', ''IMAGE'']\<rparr>"
  by (simp add: request_for_def)

text \<open>
  Claim C2. For a POST request whose body parses to a value with a truthy \<open>message\<close>, when
  nothing throws (the argument of the call can be built, the call of the model succeeds and
  its chunks end normally): the model is called once, by \<open>generateContentStream\<close>; the
  response has status 200; and its body is the stream of one \<open>data: \<close> line per chunk, in
  order, each the serialisation of the chunk followed by a blank line, closed at the end.
\<close>

theorem handler_streams_every_chunk:
  assumes "req_method req = ''POST''"
    and "req_json req = Inr parsed"
    and "get_prop (Some parsed) ''message'' = Inr message"
    and "truthy message"
    and "request_for message = Inr call"
    and "generateContentStream rt call = Inr (chunks, None)"
  shows "api_calls (handler rt req) = [call] \<and>
         status (response (handler rt req)) = 200 \<and>
         body (response (handler rt req)) =
           Stream (map (\<lambda>chunk. ''data: '' @ stringify chunk @ [NL, NL]) chunks) Closed \<and>
         body_bytes (body (response (handler rt req))) =
           concat (map (\<lambda>chunk. ''data: '' @ stringify chunk @ [NL, NL]) chunks)"
proof -
  have "handler rt req = streamed call (chunks, None)"
    using assms by (simp add: handler_def call_model_def)
  moreover have "map sse chunks = map (\<lambda>chunk. ''data: '' @ stringify chunk @ [NL, NL]) chunks"
    by (simp add: sse_def encode_def)
  ultimately show ?thesis
    by (simp add: streamed_def body_bytes_def)
qed

text \<open>The request for \<open>gravity\<close>, on a model that yields the six example chunks.\<close>

theorem handler_streams_every_chunk_witness:
  "api_calls (handler example_runtime example_request) =
     [\<lparr>model = ''gemini-2.5-flash-image-preview'',
       contents = ''gravity'' @ additionalInstructions,
       responseModalities = [''TEXT'', ''IMAGE'']\<rparr>] \<and>
   status (response (handler example_runtime example_request)) = 200 \<and>
   body (response (handler example_runtime example_request)) =
     Stream (map (\<lambda>chunk. ''data: '' @ stringify chunk @ [NL, NL]) example_chunks) Closed \<and>
   length example_chunks = 6"
proof -
  let ?call = "\<lparr>model = ''gemini-2.5-flash-image-preview'',
               contents = ''gravity'' @ additionalInstructions,
               responseModalities = [''TEXT'', ''IMAGE'']\<rparr>"
  have "req_method example_request = ''POST''"
    and "req_json example_request = Inr (JObj [(''message'', JStr ''gravity'')])"
    and "get_prop (Some (JObj [(''message'', JStr ''gravity'')])) ''message'' = Inr (Some (JStr ''gravity''))"
    and "truthy (Some (JStr ''gravity''))"
    and "request_for (Some (JStr ''gravity'')) = Inr ?call"
    and "generateContentStream example_runtime ?call = Inr (example_chunks, None)"
    by (simp_all add: example_request_def example_runtime_def request_for_string)
  from handler_streams_every_chunk [OF this] show ?thesis
    by (simp add: example_chunks_def)
qed

text \<open>
  Claim C7. For a POST request, when \<open>req.json()\<close> throws, or when the body has a truthy
  \<open>message\<close> and the call of the model throws, and also when the destructuring of line 30
  or the concatenation of line 38 throws: the response has status 500 and the JSON body
  \<open>{error: {message}}\<close> with the message of line 67, which is the message of the
  \<open>Error\<close> thrown, and \<open>An unknown error occurred\<close> for a thrown value that is not an
  \<open>Error\<close>; the body is a text, not a stream.
\<close>

theorem handler_surfaces_errors:
  assumes "req_method req = ''POST''"
    and "req_json req = Inl e \<or>
         (req_json req = Inr parsed \<and>
          (get_prop (Some parsed) ''message'' = Inl e \<or>
           (get_prop (Some parsed) ''message'' = Inr message \<and> truthy message \<and>
            (request_for message = Inl e \<or>
             (request_for message = Inr call \<and> generateContentStream rt call = Inl e)))))"
  shows "response (handler rt req) =
           \<lparr>status = 500,
            headers = [(''Content-Type'', ''application/json'')],
            body = Text (stringify (JObj [(''error'', JObj [(''message'', JStr (errorMessage rt e))])]))\<rparr> \<and>
         errorMessage rt (Error m) = m \<and>
         errorMessage rt NonError = ''An unknown error occurred''"
proof -
  have "\<exists>calls. handler rt req = caught rt e calls"
    using assms by (auto simp: handler_def call_model_def)
  then show ?thesis
    by (auto simp: caught_def errorMessage_def)
qed

text \<open>
  A model that rejects with \<open>quota exceeded\<close>; a body whose reading throws a value that is
  not an \<open>Error\<close>; a message without a conversion to a string, for which the model is not
  called; and the body \<open>null\<close>.
\<close>

theorem handler_surfaces_errors_witness:
  "response (handler example_failing_runtime example_request) =
     \<lparr>status = 500,
      headers = [(''Content-Type'', ''application/json'')],
      body = Text (''{'' @ [CHR 0x22] @ ''error'' @ [CHR 0x22] @ '':{'' @ [CHR 0x22] @ ''message'' @ [CHR 0x22] @
                   '':'' @ [CHR 0x22] @ ''quota exceeded'' @ [CHR 0x22] @ ''}}'')\<rparr> \<and>
   response (handler example_runtime \<lparr>req_method = ''POST'', req_json = Inl NonError\<rparr>) =
     \<lparr>status = 500,
      headers = [(''Content-Type'', ''application/json'')],
      body = Text (''{'' @ [CHR 0x22] @ ''error'' @ [CHR 0x22] @ '':{'' @ [CHR 0x22] @ ''message'' @ [CHR 0x22] @
                   '':'' @ [CHR 0x22] @ ''An unknown error occurred'' @ [CHR 0x22] @ ''}}'')\<rparr> \<and>
   response (handler example_runtime
       \<lparr>req_method = ''POST'', req_json = Inr (JObj [(''message'', example_unprintable)])\<rparr>) =
     \<lparr>status = 500,
      headers = [(''Content-Type'', ''application/json'')],
      body = Text (''{'' @ [CHR 0x22] @ ''error'' @ [CHR 0x22] @ '':{'' @ [CHR 0x22] @ ''message'' @ [CHR 0x22] @
                   '':'' @ [CHR 0x22] @ ''Cannot convert object to primitive value'' @ [CHR 0x22] @ ''}}'')\<rparr> \<and>
   api_calls (handler example_runtime
       \<lparr>req_method = ''POST'', req_json = Inr (JObj [(''message'', example_unprintable)])\<rparr>) = [] \<and>
   status (response (handler example_runtime \<lparr>req_method = ''POST'', req_json = Inr JNull\<rparr>)) = 500"
proof -
  let ?call = "\<lparr>model = ''gemini-2.5-flash-image-preview'',
               contents = ''gravity'' @ additionalInstructions,
               responseModalities = [''TEXT'', ''IMAGE'']\<rparr>"
  let ?bad = "\<lparr>req_method = ''POST'', req_json = Inr (JObj [(''message'', example_unprintable)])\<rparr>"
  let ?null = "\<lparr>req_method = ''POST'', req_json = Inr JNull\<rparr>"
  have a: "req_method example_request = ''POST''"
    by (simp add: example_request_def)
  have b: "req_json example_request = Inl (Error ''quota exceeded'') \<or>
      (req_json example_request = Inr (JObj [(''message'', JStr ''gravity'')]) \<and>
       (get_prop (Some (JObj [(''message'', JStr ''gravity'')])) ''message'' = Inl (Error ''quota exceeded'') \<or>
        (get_prop (Some (JObj [(''message'', JStr ''gravity'')])) ''message'' = Inr (Some (JStr ''gravity'')) \<and>
         truthy (Some (JStr ''gravity'')) \<and>
         (request_for (Some (JStr ''gravity'')) = Inl (Error ''quota exceeded'') \<or>
          (request_for (Some (JStr ''gravity'')) = Inr ?call \<and>
           generateContentStream example_failing_runtime ?call = Inl (Error ''quota exceeded''))))))"
    by (simp add: example_request_def example_failing_runtime_def request_for_string)
  have c: "req_method \<lparr>req_method = ''POST'', req_json = Inl NonError\<rparr> = ''POST''"
    by simp
  have d: "req_json \<lparr>req_method = ''POST'', req_json = Inl NonError\<rparr> = Inl NonError \<or>
      (req_json \<lparr>req_method = ''POST'', req_json = Inl NonError\<rparr> = Inr JNull \<and>
       (get_prop (Some JNull) ''message'' = Inl NonError \<or>
        (get_prop (Some JNull) ''message'' = Inr None \<and> truthy None \<and>
         (request_for None = Inl NonError \<or>
          (request_for None = Inr ?call \<and> generateContentStream example_runtime ?call = Inl NonError)))))"
    by simp
  have f: "req_method ?bad = ''POST''"
    by simp
  have g: "req_json ?bad = Inl TypeError \<or>
      (req_json ?bad = Inr (JObj [(''message'', example_unprintable)]) \<and>
       (get_prop (Some (JObj [(''message'', example_unprintable)])) ''message'' = Inl TypeError \<or>
        (get_prop (Some (JObj [(''message'', example_unprintable)])) ''message'' =
           Inr (Some example_unprintable) \<and>
         truthy (Some example_unprintable) \<and>
         (request_for (Some example_unprintable) = Inl TypeError \<or>
          (request_for (Some example_unprintable) = Inr ?call \<and>
           generateContentStream example_runtime ?call = Inl TypeError)))))"
    by (simp add: example_unprintable_def request_for_def)
  have h: "req_method ?null = ''POST''"
    by simp
  have k: "req_json ?null = Inl TypeError \<or>
      (req_json ?null = Inr JNull \<and>
       (get_prop (Some JNull) ''message'' = Inl TypeError \<or>
        (get_prop (Some JNull) ''message'' = Inr None \<and> truthy None \<and>
         (request_for None = Inl TypeError \<or>
          (request_for None = Inr ?call \<and> generateContentStream example_runtime ?call = Inl TypeError)))))"
    by simp
  have calls: "api_calls (handler example_runtime ?bad) = []"
    by (simp add: handler_def call_model_def request_for_def caught_def example_unprintable_def)
  show ?thesis
    using handler_surfaces_errors [OF a b] handler_surfaces_errors [OF c d]
      handler_surfaces_errors [OF f g] handler_surfaces_errors [OF h k] calls
    by (simp add: errorMessage_def quote_def quote_char_def example_runtime_def)
qed

text \<open>
  Claim C8 as stated fails for a POST request whose body is the JSON value \<open>null\<close>: it has
  no truthy \<open>message\<close> field, the destructuring of line 30 throws, and the \<open>catch\<close> block
  answers with status 500, not 400.
\<close>

theorem null_body_counterexample:
  "req_method \<lparr>req_method = ''POST'', req_json = Inr JNull\<rparr> = ''POST'' \<and>
   req_json \<lparr>req_method = ''POST'', req_json = Inr JNull\<rparr> = Inr JNull \<and>
   \<not> has_message JNull \<and>
   status (response (handler example_runtime \<lparr>req_method = ''POST'', req_json = Inr JNull\<rparr>)) = 500 \<and>
   status (response (handler example_runtime \<lparr>req_method = ''POST'', req_json = Inr JNull\<rparr>)) \<noteq> 400"
  by (simp add: has_message_def handler_def caught_def)

text \<open>
  Claim C8, amended. A request whose method is not POST is answered with status 405 and the
  body \<open>Method Not Allowed\<close>; a POST request whose body parses to a value other than
  \<open>null\<close> without a truthy \<open>message\<close> field is answered with status 400 and the body
  \<open>Missing message in request body\<close>; a POST request whose body parses to \<open>null\<close> is
  answered with status 500. In all three cases the model is not called.
\<close>

theorem handler_rejects_bad_requests:
  "(req_method req \<noteq> ''POST'' \<longrightarrow>
      response (handler rt req) = \<lparr>status = 405, headers = [], body = Text ''Method Not Allowed''\<rparr> \<and>
      api_calls (handler rt req) = []) \<and>
   (req_method req = ''POST'' \<and> req_json req = Inr parsed \<and> parsed \<noteq> JNull \<and> \<not> has_message parsed \<longrightarrow>
      response (handler rt req) =
        \<lparr>status = 400, headers = [], body = Text ''Missing message in request body''\<rparr> \<and>
      api_calls (handler rt req) = []) \<and>
   (req_method req = ''POST'' \<and> req_json req = Inr JNull \<longrightarrow>
      status (response (handler rt req)) = 500 \<and> api_calls (handler rt req) = [])"
  by (auto simp: handler_def plain_def has_message_def get_prop_opt_prop caught_def)

text \<open>A GET request, a POST request with an empty \<open>message\<close>, and a POST request with the
  body \<open>null\<close>.\<close>

theorem handler_rejects_bad_requests_witness:
  "response (handler example_runtime \<lparr>req_method = ''GET'', req_json = Inl NonError\<rparr>) =
     \<lparr>status = 405, headers = [], body = Text ''Method Not Allowed''\<rparr> \<and>
   api_calls (handler example_runtime \<lparr>req_method = ''GET'', req_json = Inl NonError\<rparr>) = [] \<and>
   response (handler example_runtime \<lparr>req_method = ''POST'', req_json = Inr (JObj [(''message'', JStr [])])\<rparr>) =
     \<lparr>status = 400, headers = [], body = Text ''Missing message in request body''\<rparr> \<and>
   api_calls (handler example_runtime \<lparr>req_method = ''POST'', req_json = Inr (JObj [(''message'', JStr [])])\<rparr>) = [] \<and>
   api_calls (handler example_runtime \<lparr>req_method = ''POST'', req_json = Inr JNull\<rparr>) = []"
  using handler_rejects_bad_requests [of "\<lparr>req_method = ''GET'', req_json = Inl NonError\<rparr>" example_runtime JNull]
    handler_rejects_bad_requests [of "\<lparr>req_method = ''POST'', req_json = Inr (JObj [(''message'', JStr [])])\<rparr>"
      example_runtime "JObj [(''message'', JStr [])]"]
    handler_rejects_bad_requests [of "\<lparr>req_method = ''POST'', req_json = Inr JNull\<rparr>" example_runtime JNull]
  by (simp add: has_message_def)

end
